theory Spec2Isabelle
  imports Main
begin

section \<open>Regular expressions as the monitor uses them\<close>

text \<open>
  The monitor recognises log lines with Python regular expressions (\<open>re.search\<close>).
  Every pattern of \<open>bot.py\<close> is a concatenation of literal text and greedy
  repetitions of one character class, some of them named groups. The matcher below is
  the backtracking matcher for that fragment: a repetition first takes as many
  characters as it can and gives them back one at a time while the rest of the pattern
  fails; \<open>re.search\<close> tries the start offsets from left to right and keeps the first
  match. A line is a \<open>string\<close>, one \<open>char\<close> for each character of the line.
\<close>

datatype cls = OneOf string | NoneOf string

fun cls_ok :: "cls \<Rightarrow> char \<Rightarrow> bool" where
  "cls_ok (OneOf cs) c = (c \<in> set cs)"
| "cls_ok (NoneOf cs) c = (c \<notin> set cs)"

text \<open>
  \<open>Lit\<close> is literal text. \<open>Rep g c lo hi\<close> is \<open>c{lo,hi}\<close> (no upper bound when
  \<open>hi = None\<close>), a named group when \<open>g\<close> is a name. \<open>Alt g as\<close> is a group whose
  body is an alternation of fixed-length class sequences, tried in the order written
  (the shape of the field patterns of \<open>strptime\<close>).
\<close>

datatype item =
    Lit string
  | Rep "string option" cls nat "nat option"
  | Alt "string option" "cls list list"

type_synonym re_match = "(string \<times> string) list"

definition bind :: "string option \<Rightarrow> string \<Rightarrow> re_match \<Rightarrow> re_match" where
  "bind g v caps = (case g of None \<Rightarrow> caps | Some n \<Rightarrow> (n, v) # caps)"

text \<open>
  \<open>m.group(name)\<close>. Every name the program asks for is a group of the pattern that
  produced the match and takes part in each of its matches, so the lookup never fails
  there; the empty string stands for the \<open>IndexError\<close> of an unknown name.
\<close>

definition re_group :: "re_match \<Rightarrow> string \<Rightarrow> string" where
  "re_group m n = (case map_of m n of Some v \<Rightarrow> v | None \<Rightarrow> [])"

primrec backtrack :: "(nat \<Rightarrow> 'a option) \<Rightarrow> nat \<Rightarrow> nat \<Rightarrow> 'a option" where
  "backtrack f lo 0 = (if lo = 0 then f 0 else None)"
| "backtrack f lo (Suc k) =
     (if Suc k < lo then None
      else (case f (Suc k) of Some r \<Rightarrow> Some r | None \<Rightarrow> backtrack f lo k))"

primrec first_alt :: "('b \<Rightarrow> 'a option) \<Rightarrow> 'b list \<Rightarrow> 'a option" where
  "first_alt f [] = None"
| "first_alt f (a # as) = (case f a of Some r \<Rightarrow> Some r | None \<Rightarrow> first_alt f as)"

definition greedy_count :: "cls \<Rightarrow> nat option \<Rightarrow> string \<Rightarrow> nat" where
  "greedy_count c hi s =
     (let n = length (takeWhile (cls_ok c) s)
      in case hi of None \<Rightarrow> n | Some h \<Rightarrow> min h n)"

definition fits :: "cls list \<Rightarrow> string \<Rightarrow> bool" where
  "fits a s = (length a \<le> length s \<and> list_all2 cls_ok a (take (length a) s))"

fun match_here :: "item list \<Rightarrow> string \<Rightarrow> re_match \<Rightarrow> (re_match \<times> string) option" where
  "match_here [] s caps = Some (caps, s)"
| "match_here (Lit l # r) s caps =
     (if take (length l) s = l then match_here r (drop (length l) s) caps else None)"
| "match_here (Rep g c lo hi # r) s caps =
     backtrack (\<lambda>k. match_here r (drop k s) (bind g (take k s) caps)) lo (greedy_count c hi s)"
| "match_here (Alt g as # r) s caps =
     first_alt (\<lambda>a. if fits a s
                     then match_here r (drop (length a) s) (bind g (take (length a) s) caps)
                     else None) as"

fun search :: "item list \<Rightarrow> string \<Rightarrow> re_match option" where
  "search p [] = map_option fst (match_here p [] [])"
| "search p (c # s) =
     (case match_here p (c # s) [] of
        Some (m, _) \<Rightarrow> Some m
      | None \<Rightarrow> search p s)"

abbreviation newline :: char where
  "newline \<equiv> CHR 0x0A"

abbreviation digits :: cls where
  "digits \<equiv> OneOf ''0123456789''"

text \<open>\<open>.\<close> and \<open>[^\n]\<close>: any character but the newline.\<close>

abbreviation dot :: cls where
  "dot \<equiv> NoneOf [newline]"

subsection \<open>The four patterns of \<open>bot.py\<close>\<close>

definition damage_re :: "item list" where
  "damage_re =
     [Lit ''['', Rep (Some ''time'') (NoneOf '']'') 1 None, Lit '']'',
      Lit ''['', Rep (Some ''log_id'') digits 1 None, Lit '']'',
      Lit ''LogSquad: Player:'',
      Rep (Some ''victim'') dot 0 None,
      Lit '' ActualDamage='', Rep None dot 0 None, Lit '' from '',
      Rep (Some ''killer'') dot 0 None,
      Lit '' caused by '',
      Lit ''BP_'', Rep (Some ''weapon'') (NoneOf ''_'') 0 None, Lit ''_'']"

definition teamkill_re :: "item list" where
  "teamkill_re =
     [Lit ''['', Rep (Some ''log_id'') digits 1 None, Lit '']'',
      Rep None dot 0 None,
      Lit ''LogSquadScorePoints:'', Rep None dot 0 None, Lit ''TeamKilled'']"

definition possess_re :: "item list" where
  "possess_re =
     [Lit ''['', Rep (Some ''time'') (NoneOf '']'') 1 None, Lit '']'',
      Lit ''['', Rep (Some ''log_id'') digits 1 None, Lit '']'',
      Rep None dot 0 None,
      Lit ''ASQPlayerController::Possess'',
      Rep None dot 0 None,
      Lit ''PC='', Rep (Some ''user'') dot 0 None, Lit '' '',
      Rep None dot 0 None,
      Lit ''Pawn=CameraMan_C_'']"

definition unpossess_re :: "item list" where
  "unpossess_re =
     [Lit ''['', Rep (Some ''time'') (NoneOf '']'') 1 None, Lit '']'',
      Lit ''['', Rep (Some ''log_id'') digits 1 None, Lit '']'',
      Rep None dot 0 None,
      Lit ''ASQPlayerController::UnPossess'',
      Rep None dot 0 None,
      Lit ''PC='', Rep (Some ''user'') dot 0 None]"

section \<open>Timestamps\<close>

text \<open>
  \<open>int(text)\<close> on decimal text. The program applies it to text matched by
  \<open>[0-9]+\<close>, and \<open>strptime\<close> to its own groups, where a day may carry one
  leading blank; Python integers are unbounded.
\<close>

definition py_int :: "string \<Rightarrow> int" where
  "py_int s = foldl (\<lambda>a c. 10 * a + (of_char c - 48)) 0 (dropWhile (\<lambda>c. c = CHR '' '') s)"

datatype tz = UTC

record datetime =
  year :: nat
  month :: nat
  day :: nat
  hour :: nat
  minute :: nat
  second :: nat
  microsecond :: nat
  tzinfo :: "tz option"

datatype error = ValueError | OSError | OpenError

text \<open>
  \<open>datetime.strptime(time_str, "%Y.%m.%d-%H.%M.%S:%f")\<close> of the standard library.
  It matches the text from its start against the pattern it builds from the format,
  \<open>(?P<Y>\d\d\d\d)\.(?P<m>1[0-2]|0[1-9]|[1-9])\.(?P<d>3[0-1]|[1-2]\d|0[1-9]|[1-9]| [1-9])-\<close>
  \<open>(?P<H>2[0-3]|[0-1]\d|\d)\.(?P<M>[0-5]\d|\d)\.(?P<S>6[0-1]|[0-5]\d|\d):(?P<f>[0-9]{1,6})\<close>,
  raises \<open>ValueError\<close> when there is no match, when text remains after the match, and
  when the fields are no date or time (year 0, a day the month does not have, second 60
  or 61); the fraction is padded with zeros to six digits.
\<close>

abbreviation d19 :: cls where
  "d19 \<equiv> OneOf ''123456789''"

definition strptime_re :: "item list" where
  "strptime_re =
     [Alt (Some ''Y'') [[digits, digits, digits, digits]], Lit ''.'',
      Alt (Some ''m'') [[OneOf ''1'', OneOf ''012''], [OneOf ''0'', d19], [d19]], Lit ''.'',
      Alt (Some ''d'') [[OneOf ''3'', OneOf ''01''], [OneOf ''12'', digits], [OneOf ''0'', d19],
                        [d19], [OneOf '' '', d19]], Lit ''-'',
      Alt (Some ''H'') [[OneOf ''2'', OneOf ''0123''], [OneOf ''01'', digits], [digits]], Lit ''.'',
      Alt (Some ''M'') [[OneOf ''012345'', digits], [digits]], Lit ''.'',
      Alt (Some ''S'') [[OneOf ''6'', OneOf ''01''], [OneOf ''012345'', digits], [digits]], Lit '':'',
      Rep (Some ''f'') digits 1 (Some 6)]"

definition is_leap :: "nat \<Rightarrow> bool" where
  "is_leap y = (y mod 4 = 0 \<and> (y mod 100 \<noteq> 0 \<or> y mod 400 = 0))"

definition days_in_month :: "nat \<Rightarrow> nat \<Rightarrow> nat" where
  "days_in_month y m =
     (if m = 2 then (if is_leap y then 29 else 28)
      else if m \<in> {4, 6, 9, 11} then 30 else 31)"

definition strptime :: "string \<Rightarrow> error + datetime" where
  "strptime s =
     (case match_here strptime_re s [] of
        None \<Rightarrow> Inl ValueError
      | Some (found, rest) \<Rightarrow>
          if rest \<noteq> [] then Inl ValueError
          else
            let f = re_group found ''f'';
                y = nat (py_int (re_group found ''Y''));
                m = nat (py_int (re_group found ''m''));
                d = nat (py_int (re_group found ''d''));
                sec = nat (py_int (re_group found ''S''))
            in if y = 0 \<or> days_in_month y m < d \<or> 59 < sec then Inl ValueError
               else Inr \<lparr>year = y, month = m, day = d,
                         hour = nat (py_int (re_group found ''H'')),
                         minute = nat (py_int (re_group found ''M'')),
                         second = sec,
                         microsecond = nat (py_int (f @ replicate (6 - length f) CHR ''0'')),
                         tzinfo = None\<rparr>)"

text \<open>\<open>timezone("UTC").localize(time_naive)\<close>: the same instant with the zone attached.\<close>

definition localize :: "datetime \<Rightarrow> datetime" where
  "localize t = t\<lparr>tzinfo := Some UTC\<rparr>"

definition digit_chr :: "nat \<Rightarrow> char" where
  "digit_chr n = char_of (48 + n mod 10)"

definition pad2 :: "nat \<Rightarrow> string" where
  "pad2 n = [digit_chr (n div 10), digit_chr n]"

definition pad4 :: "nat \<Rightarrow> string" where
  "pad4 n = [digit_chr (n div 1000), digit_chr (n div 100), digit_chr (n div 10), digit_chr n]"

text \<open>
  \<open>time_utc.strftime("%Y.%m.%d - %H:%M:%S")\<close>; the year is written with four digits,
  as the C runtime of the platform the program runs on does.
\<close>

definition strftime :: "datetime \<Rightarrow> string" where
  "strftime t =
     pad4 (year t) @ ''.'' @ pad2 (month t) @ ''.'' @ pad2 (day t) @ '' - '' @
     pad2 (hour t) @ '':'' @ pad2 (minute t) @ '':'' @ pad2 (second t)"

section \<open>The monitor\<close>

text \<open>
  Modelled from the spec: the class \<open>TeamKill\<close> of the module \<open>teamkill\<close>, which is
  not among the sources; \<open>bot.py\<close> builds it as
  \<open>TeamKill(time_utc, victim, killer, weapon)\<close> and reads the four fields back under
  these names.
\<close>

record TeamKill =
  time_utc :: datetime
  victim :: string
  killer :: string
  weapon :: string

text \<open>
  The fields that \<open>TKMonitor.__init__\<close> sets and the parser changes. \<open>admincam_file\<close>
  is what has been appended to the file named \<open>admincam_log_filename\<close>, one entry for
  each \<open>write\<close>: the file is outside the object and is kept here so that one state is
  passed along.
\<close>

record TKMonitor =
  recent_damages :: "re_match list"
  seen_tks :: "string set"
  last_log_id :: int
  active_admin_cam_users :: "string set"
  admincam_file :: "string list"

definition init :: TKMonitor where
  "init = \<lparr>recent_damages = [], seen_tks = {}, last_log_id = 0,
           active_admin_cam_users = {}, admincam_file = []\<rparr>"

type_synonym 'a result = "(error + 'a) \<times> TKMonitor"

text \<open>
  \<open>_match_damage\<close>: a damage line is appended to \<open>recent_damages\<close>, and the oldest
  entry is deleted when that makes more than 20.
\<close>

definition match_damage :: "string \<Rightarrow> TKMonitor \<Rightarrow> bool \<times> TKMonitor" where
  "match_damage line st =
     (case search damage_re line of
        None \<Rightarrow> (False, st)
      | Some actual_damage \<Rightarrow>
          let appended = recent_damages st @ [actual_damage]
          in (True, st\<lparr>recent_damages :=
                         (if length appended > 20 then tl appended else appended)\<rparr>))"

text \<open>
  The loop \<open>for dmg in self.recent_damages\<close> of \<open>_match_teamkill\<close>: the first entry
  with the log id of the teamkill line is used; \<open>strptime\<close> may raise before the id is
  remembered; the method returns \<open>None\<close> when the loop ends without a hit.
\<close>

fun match_log_ids :: "string \<Rightarrow> re_match list \<Rightarrow> TKMonitor \<Rightarrow> TeamKill option result" where
  "match_log_ids lid [] st = (Inr None, st)"
| "match_log_ids lid (dmg # rest) st =
     (if re_group dmg ''log_id'' = lid then
        (case strptime (re_group dmg ''time'') of
           Inl e \<Rightarrow> (Inl e, st)
         | Inr time_naive \<Rightarrow>
             (Inr (Some \<lparr>time_utc = localize time_naive,
                         victim = re_group dmg ''victim'',
                         killer = re_group dmg ''killer'',
                         weapon = re_group dmg ''weapon''\<rparr>),
              st\<lparr>seen_tks := insert lid (seen_tks st)\<rparr>))
      else match_log_ids lid rest st)"

definition match_teamkill :: "string \<Rightarrow> TKMonitor \<Rightarrow> TeamKill option result" where
  "match_teamkill line st =
     (case search teamkill_re line of
        None \<Rightarrow> (Inr None, st)
      | Some team_kill \<Rightarrow>
          let lid = re_group team_kill ''log_id'';
              st1 = (if py_int lid + 500 < last_log_id st then st\<lparr>seen_tks := {}\<rparr> else st);
              st2 = st1\<lparr>last_log_id := py_int lid\<rparr>
          in if lid \<in> seen_tks st2 then (Inr None, st2)
             else match_log_ids lid (recent_damages st2) st2)"

text \<open>
  The tail of \<open>_match_admincam\<close> after the sets are updated: the time of the line is
  parsed and formatted, the message is appended to the audit file. \<open>sink_ok\<close> is the
  answer of the environment to opening and writing that file; \<open>OSError\<close> otherwise.
\<close>

definition write_admincam :: "bool \<Rightarrow> re_match \<Rightarrow> string \<Rightarrow> TKMonitor \<Rightarrow> bool result" where
  "write_admincam sink_ok m change st =
     (case strptime (re_group m ''time'') of
        Inl e \<Rightarrow> (Inl e, st)
      | Inr time_naive \<Rightarrow>
          let time_utc_str = strftime (localize time_naive);
              log_message = ''['' @ time_utc_str @ '' UTC] '' @ change @ '': '' @ re_group m ''user''
          in if sink_ok
             then (Inr True, st\<lparr>admincam_file := admincam_file st @ [log_message @ [newline]]\<rparr>)
             else (Inl OSError, st))"

definition match_admincam :: "bool \<Rightarrow> string \<Rightarrow> TKMonitor \<Rightarrow> bool result" where
  "match_admincam sink_ok line st =
     (case search possess_re line of
        Some m \<Rightarrow>
          write_admincam sink_ok m ''++++++++++++ ENTER''
            (st\<lparr>active_admin_cam_users := insert (re_group m ''user'') (active_admin_cam_users st)\<rparr>)
      | None \<Rightarrow>
          (case search unpossess_re line of
             Some m \<Rightarrow>
               if re_group m ''user'' \<notin> active_admin_cam_users st then (Inr False, st)
               else write_admincam sink_ok m ''--- POSSIBLE LEAVE''
                      (st\<lparr>active_admin_cam_users :=
                            active_admin_cam_users st - {re_group m ''user''}\<rparr>)
           | None \<Rightarrow> (Inr False, st)))"

text \<open>\<open>parse_line\<close>: the admin camera format first, then damage, then teamkill.\<close>

definition parse_line :: "bool \<Rightarrow> string \<Rightarrow> TKMonitor \<Rightarrow> TeamKill option result" where
  "parse_line sink_ok line st =
     (case match_admincam sink_ok line st of
        (Inl e, st') \<Rightarrow> (Inl e, st')
      | (Inr True, st') \<Rightarrow> (Inr None, st')
      | (Inr False, st') \<Rightarrow>
          (case match_damage line st' of
             (True, st'') \<Rightarrow> (Inr None, st'')
           | (False, st'') \<Rightarrow> match_teamkill line st''))"


section \<open>The follower\<close>

text \<open>
  The generator \<open>_log_follow\<close> keeps three locals besides the monitor object: the open
  file (of which only the read offset matters here), the size it last recorded and a
  line counter. \<open>follow_line\<close> is one pass of the inner loop for a line read
  (\<open>None\<close> is a line that failed to decode, \<open>consumed\<close> what the read took from the
  file, \<open>st_size\<close> the answer of \<open>os.fstat\<close>): the recorded size is refreshed when
  the counter is 0, the counter advances modulo 1000, and the line is handed to
  \<open>parse_line\<close> by \<open>tk_follow\<close>.
\<close>

record follower =
  monitor :: TKMonitor
  f_pos :: nat
  file_size :: nat
  line_counter :: nat

definition follow_line ::
  "bool \<Rightarrow> nat \<Rightarrow> nat \<Rightarrow> string option \<Rightarrow> follower \<Rightarrow>
     (error + TeamKill option) \<times> follower" where
  "follow_line sink_ok st_size consumed readline fl =
     (let line = (case readline of None \<Rightarrow> ''DECODE_ERROR'' | Some l \<Rightarrow> l);
          fl1 = fl\<lparr>f_pos := f_pos fl + consumed\<rparr>;
          fl2 = (if line_counter fl1 = 0 then fl1\<lparr>file_size := st_size\<rparr> else fl1);
          fl3 = fl2\<lparr>line_counter := (line_counter fl2 + 1) mod 1000\<rparr>
      in case parse_line sink_ok line (monitor fl3) of
           (r, m') \<Rightarrow> (r, fl3\<lparr>monitor := m'\<rparr>))"

text \<open>
  The check after the inner loop has reached the end of the file. \<open>cur_size\<close> is the
  answer of \<open>os.fstat\<close> (\<open>None\<close>: it raised \<open>IOError\<close>, which is logged and
  ignored). When the file has shrunk it is closed and opened again; \<open>reopened\<close> is
  the size \<open>_open_log_file\<close> finds, where it also leaves the read offset (\<open>None\<close>:
  the file could not be opened, which ends the follower).
\<close>

definition check_truncated :: "nat option \<Rightarrow> nat option \<Rightarrow> follower \<Rightarrow> error + follower" where
  "check_truncated cur_size reopened fl =
     (case cur_size of
        None \<Rightarrow> Inr fl
      | Some sz \<Rightarrow>
          if sz < file_size fl
          then (case reopened of
                  None \<Rightarrow> Inl OpenError
                | Some new_size \<Rightarrow> Inr (fl\<lparr>f_pos := new_size, file_size := new_size\<rparr>))
          else Inr fl)"

section \<open>Notions of the specification\<close>

text \<open>The last \<open>n\<close> elements of a list, in their order.\<close>

definition last_n :: "nat \<Rightarrow> 'a list \<Rightarrow> 'a list" where
  "last_n n xs = drop (length xs - n) xs"

text \<open>Feeding lines to \<open>_match_damage\<close> one after the other.\<close>

definition feed_damage :: "string list \<Rightarrow> TKMonitor \<Rightarrow> TKMonitor" where
  "feed_damage ls st = foldl (\<lambda>s l. snd (match_damage l s)) st ls"

text \<open>
  The admin camera transition a line stands for: Enter when the possess pattern matches,
  a candidate Leave when it does not and the unpossess pattern matches.
\<close>

datatype transition = Enter string | Leave string

definition transition_of :: "string \<Rightarrow> transition option" where
  "transition_of line =
     (case search possess_re line of
        Some m \<Rightarrow> Some (Enter (re_group m ''user''))
      | None \<Rightarrow>
          (case search unpossess_re line of
             Some m \<Rightarrow> Some (Leave (re_group m ''user''))
           | None \<Rightarrow> None))"

fun user_of :: "transition \<Rightarrow> string" where
  "user_of (Enter u) = u"
| "user_of (Leave u) = u"

text \<open>The most recent transition of user \<open>u\<close> among the lines.\<close>

definition last_transition :: "string \<Rightarrow> string list \<Rightarrow> transition option" where
  "last_transition u ls =
     (case filter (\<lambda>t. user_of t = u) (List.map_filter transition_of (rev ls)) of
        [] \<Rightarrow> None
      | t # _ \<Rightarrow> Some t)"

text \<open>
  A teamkill line asks for the wraparound clear in state \<open>st\<close> when its log id plus
  500 is below the last one seen.
\<close>

definition wraps :: "string \<Rightarrow> TKMonitor \<Rightarrow> bool" where
  "wraps line st =
     (case search teamkill_re line of
        None \<Rightarrow> False
      | Some m \<Rightarrow> py_int (re_group m ''log_id'') + 500 < last_log_id st)"

text \<open>
  The monitor after the wraparound check and the assignment to \<open>last_log_id\<close> of
  \<open>_match_teamkill\<close>, for a teamkill line with log id text \<open>lid\<close>.
\<close>

definition after_check :: "string \<Rightarrow> TKMonitor \<Rightarrow> TKMonitor" where
  "after_check lid st =
     st\<lparr>seen_tks := (if py_int lid + 500 < last_log_id st then {} else seen_tks st),
        last_log_id := py_int lid\<rparr>"



text \<open>
  The state machine of the admin camera tracker on the set of users that are in: Enter
  puts the user in, Leave puts the user out.
\<close>

fun step_users :: "transition option \<Rightarrow> string set \<Rightarrow> string set" where
  "step_users None A = A"
| "step_users (Some (Enter u)) A = insert u A"
| "step_users (Some (Leave u)) A = A - {u}"

text \<open>The text one admin camera event adds to the audit file.\<close>

definition audit_entry :: "datetime \<Rightarrow> string \<Rightarrow> string \<Rightarrow> string" where
  "audit_entry t change user =
     ''['' @ strftime (localize t) @ '' UTC] '' @ change @ '': '' @ user @ [newline]"

section \<open>Sample lines and states\<close>

definition dmg_line_55 :: string where
  "dmg_line_55 =
     ''[2024.01.01-00.00.00:000][55]LogSquad: Player:V ActualDamage=1 from K caused by BP_AK47_C''
     @ [newline]"

definition dmg_55 :: re_match where
  "dmg_55 = [(''weapon'', ''AK47''), (''killer'', ''K''), (''victim'', ''V''),
             (''log_id'', ''55''), (''time'', ''2024.01.01-00.00.00:000'')]"

definition tk_line_55 :: string where
  "tk_line_55 = ''[2024.01.01-00.00.00:001][55]LogSquadScorePoints: TeamKilled'' @ [newline]"

definition dmg_54 :: re_match where
  "dmg_54 = [(''weapon'', ''M4''), (''killer'', ''A''), (''victim'', ''B''),
             (''log_id'', ''54''), (''time'', ''2024.01.01-00.00.00:000'')]"

text \<open>A monitor whose window is full: one older entry and nineteen newer ones.\<close>

definition full_window :: TKMonitor where
  "full_window = init\<lparr>recent_damages := dmg_54 # replicate 19 dmg_55\<rparr>"


definition dmg_400 :: re_match where
  "dmg_400 = [(''weapon'', ''M4''), (''killer'', ''K''), (''victim'', ''V''),
              (''log_id'', ''400''), (''time'', ''2024.01.01-00.01.00:000'')]"

definition dmg_line_0400 :: string where
  "dmg_line_0400 =
     ''[2024.01.01-00.01.00:000][0400]LogSquad: Player:V ActualDamage=1 from K caused by BP_M4_C''
     @ [newline]"

definition dmg_0400 :: re_match where
  "dmg_0400 = [(''weapon'', ''M4''), (''killer'', ''K''), (''victim'', ''V''),
               (''log_id'', ''0400''), (''time'', ''2024.01.01-00.01.00:000'')]"

definition tk_line_400 :: string where
  "tk_line_400 = ''[2024.01.01-00.01.00:001][400]LogSquadScorePoints: TeamKilled'' @ [newline]"

definition tk_line_0400 :: string where
  "tk_line_0400 = ''[2024.01.01-00.01.00:001][0400]LogSquadScorePoints: TeamKilled'' @ [newline]"

text \<open>The last teamkill line had log id 1000; ids 400 and 900 have been reported.\<close>

definition after_1000 :: TKMonitor where
  "after_1000 = init\<lparr>recent_damages := [dmg_400], seen_tks := {''400'', ''900''},
                      last_log_id := 1000\<rparr>"



text \<open>Id 900 has been reported, the last teamkill line had id 1000, no damage is buffered.\<close>

definition stale_900 :: TKMonitor where
  "stale_900 = init\<lparr>seen_tks := {''900''}, last_log_id := 1000\<rparr>"

text \<open>Id \<open>400\<close> has been reported; damage is buffered under \<open>400\<close> and under \<open>0400\<close>.\<close>

definition seen_400 :: TKMonitor where
  "seen_400 = init\<lparr>recent_damages := [dmg_400, dmg_0400], seen_tks := {''400''},
                    last_log_id := 400\<rparr>"

definition only_400 :: TKMonitor where
  "only_400 = init\<lparr>recent_damages := [dmg_400]\<rparr>"







text \<open>A line that fits the possess pattern and the damage pattern.\<close>

definition possess_damage_line :: string where
  "possess_damage_line =
     ''[2024.01.01-00.00.00:000][3]LogSquad: Player:ASQPlayerController::Possess PC=Eve Pawn=CameraMan_C_ ActualDamage=1 from K caused by BP_M4_''
     @ [newline]"

text \<open>A line that fits the damage pattern and the teamkill pattern.\<close>

definition damage_teamkill_line :: string where
  "damage_teamkill_line =
     ''[2024.01.01-00.00.00:000][900]LogSquad: Player:V ActualDamage=1 from K caused by BP_M4_ LogSquadScorePoints: TeamKilled''
     @ [newline]"




text \<open>A follower that has read 50000 bytes, with one damage record buffered.\<close>

definition follower_50000 :: follower where
  "follower_50000 = \<lparr>monitor = init\<lparr>recent_damages := [dmg_55]\<rparr>, f_pos = 50000,
                      file_size = 50000, line_counter = 7\<rparr>"

text \<open>What the follower yields for a line that failed to decode.\<close>

definition decode_error_line :: string where
  "decode_error_line = ''DECODE_ERROR''"

text \<open>A teamkill line that also fits the unpossess pattern, for user Alice.\<close>

definition unpossess_teamkill_line :: string where
  "unpossess_teamkill_line =
     ''[2024.01.01-00.00.00:001][55]LogSquadScorePoints: TeamKilled ASQPlayerController::UnPossess(): PC=Alice''
     @ [newline]"

section \<open>The sample lines, evaluated\<close>

lemma search_dmg_line_55: "search damage_re dmg_line_55 = Some dmg_55"
  by code_simp

lemma search_dmg_line_0400: "search damage_re dmg_line_0400 = Some dmg_0400"
  by code_simp
lemma search_tk_line_55: "search teamkill_re tk_line_55 = Some [(''log_id'', ''55'')]"
  by code_simp
lemma search_tk_line_400: "search teamkill_re tk_line_400 = Some [(''log_id'', ''400'')]"
  by code_simp
lemma search_tk_line_0400: "search teamkill_re tk_line_0400 = Some [(''log_id'', ''0400'')]"
  by code_simp
lemma strptime_sample_0: "strptime ''2024.01.01-00.00.00:000'' =
   Inr \<lparr>year = 2024, month = 1, day = 1, hour = 0, minute = 0, second = 0,
        microsecond = 0, tzinfo = None\<rparr>"
  by code_simp
lemma strptime_sample_1: "strptime ''2024.01.01-00.01.00:000'' =
   Inr \<lparr>year = 2024, month = 1, day = 1, hour = 0, minute = 1, second = 0,
        microsecond = 0, tzinfo = None\<rparr>"
  by code_simp
lemma py_int_samples: "py_int ''400'' = 400" "py_int ''0400'' = 400" "py_int ''55'' = 55"
  by code_simp+

section \<open>What a match says about the line\<close>

lemma backtrack_SomeD:
  "backtrack f lo n = Some r \<Longrightarrow> \<exists>k. lo \<le> k \<and> k \<le> n \<and> f k = Some r"
proof (induction n)
  case 0
  then show ?case by (auto split: if_splits)
next
  case (Suc n)
  show ?case
  proof (cases "f (Suc n)")
    case None
    with Suc.prems have "backtrack f lo n = Some r" by (simp split: if_splits)
    from Suc.IH[OF this] show ?thesis by (auto intro: le_SucI)
  next
    case (Some a)
    with Suc.prems have "\<not> Suc n < lo" "a = r" by (auto split: if_splits)
    with Some have "lo \<le> Suc n \<and> Suc n \<le> Suc n \<and> f (Suc n) = Some r" by simp
    then show ?thesis by blast
  qed
qed

lemma match_here_LitD:
  "match_here (Lit l # r) s caps = Some x \<Longrightarrow> \<exists>s'. s = l @ s' \<and> match_here r s' caps = Some x"
proof -
  assume a: "match_here (Lit l # r) s caps = Some x"
  then have t: "take (length l) s = l" and m: "match_here r (drop (length l) s) caps = Some x"
    by (auto split: if_splits)
  have "s = l @ drop (length l) s" using t append_take_drop_id[of "length l" s] by simp
  with m show ?thesis by blast
qed

lemma take_takeWhile_all:
  "k \<le> length (takeWhile P s) \<Longrightarrow> \<forall>c\<in>set (take k s). P c"
proof -
  assume k: "k \<le> length (takeWhile P s)"
  have "take k (takeWhile P s @ dropWhile P s) = take k (takeWhile P s)"
    using k by (simp only: take_append) simp
  then have "take k s = take k (takeWhile P s)" by simp
  then have "set (take k s) \<subseteq> set (takeWhile P s)" by (simp add: set_take_subset)
  then show ?thesis by (auto dest: set_takeWhileD)
qed

lemma match_here_RepD:
  "match_here (Rep g c lo hi # r) s caps = Some x \<Longrightarrow>
   \<exists>v s'. s = v @ s' \<and> lo \<le> length v \<and> (\<forall>ch\<in>set v. cls_ok c ch) \<and>
          match_here r s' (bind g v caps) = Some x"
proof -
  assume a: "match_here (Rep g c lo hi # r) s caps = Some x"
  then obtain k where k: "lo \<le> k" "k \<le> greedy_count c hi s"
    and m: "match_here r (drop k s) (bind g (take k s) caps) = Some x"
    by (auto dest: backtrack_SomeD)
  have kl: "k \<le> length (takeWhile (cls_ok c) s)"
    using k(2) by (auto simp: greedy_count_def Let_def split: option.splits)
  then have all: "\<forall>ch\<in>set (take k s). cls_ok c ch" by (rule take_takeWhile_all)
  have "k \<le> length s" using kl length_takeWhile_le[of "cls_ok c" s] by linarith
  then have "length (take k s) = k" by simp
  with k(1) all m show ?thesis
    by (intro exI[of _ "take k s"] exI[of _ "drop k s"]) simp
qed

lemma search_SomeD:
  "search p s = Some m \<Longrightarrow> \<exists>a b rest. s = a @ b \<and> match_here p b [] = Some (m, rest)"
proof (induction s)
  case Nil
  then show ?case by auto
next
  case (Cons c s)
  show ?case
  proof (cases "match_here p (c # s) []")
    case None
    with Cons.prems have "search p s = Some m" by simp
    from Cons.IH[OF this] obtain a b rest where "s = a @ b" "match_here p b [] = Some (m, rest)"
      by blast
    then have "c # s = (c # a) @ b \<and> match_here p b [] = Some (m, rest)" by simp
    then show ?thesis by blast
  next
    case (Some x)
    with Cons.prems obtain rest where "x = (m, rest)" by (cases x) auto
    with Some have "c # s = [] @ (c # s) \<and> match_here p (c # s) [] = Some (m, rest)" by simp
    then show ?thesis by blast
  qed
qed

lemma match_here_NilD: "match_here [] s caps = Some (m, rest) \<Longrightarrow> m = caps \<and> rest = s"
  by simp

lemma teamkill_re_shape:
  assumes "search teamkill_re line = Some m"
  shows "\<exists>i. m = [(''log_id'', i)] \<and> i \<noteq> [] \<and> set i \<subseteq> set ''0123456789''"
proof -
  from search_SomeD[OF assms] obtain a b rest where
    "match_here teamkill_re b [] = Some (m, rest)" by blast
  then show ?thesis
    unfolding teamkill_re_def
    by (auto dest!: match_here_RepD match_here_LitD match_here_NilD
        simp del: match_here.simps simp: bind_def)
qed


section \<open>The damage window\<close>

lemma match_damage_window:
  "recent_damages (snd (match_damage line st)) =
     (case search damage_re line of
        None \<Rightarrow> recent_damages st
      | Some m \<Rightarrow> (if length (recent_damages st) \<ge> 20
                   then tl (recent_damages st @ [m]) else recent_damages st @ [m]))"
  by (simp add: match_damage_def Let_def split: option.splits)

lemma last_n_step:
  "length w \<le> 20 \<Longrightarrow>
   (if length w \<ge> 20 then tl (w @ [m]) else w @ [m]) = last_n 20 (w @ [m])"
  by (cases w) (auto simp: last_n_def Suc_diff_le)

lemma last_n_last_n_append: "last_n n (last_n n xs @ ys) = last_n n (xs @ ys)"
proof (cases "length xs \<le> n")
  case True
  then show ?thesis by (simp add: last_n_def)
next
  case False
  define k where "k = length xs - n"
  have k: "k \<le> length xs" "length xs - k = n" using False by (simp_all add: k_def)
  have "last_n n (last_n n xs @ ys) = drop (length ys) (drop k xs @ ys)"
    using k by (simp add: last_n_def k_def)
  also have "\<dots> = drop (length ys) (drop k (xs @ ys))"
    using k by simp
  also have "\<dots> = drop (k + length ys) (xs @ ys)"
    by (simp only: drop_drop add.commute)
  also have "\<dots> = last_n n (xs @ ys)"
    using False by (simp add: last_n_def k_def)
  finally show ?thesis .
qed

lemma length_last_n: "length (last_n n xs) \<le> n"
  by (simp add: last_n_def)

lemma last_n_short: "length xs \<le> n \<Longrightarrow> last_n n xs = xs"
  by (simp add: last_n_def)

lemma feed_damage_window:
  "length (recent_damages st) \<le> 20 \<Longrightarrow>
   recent_damages (feed_damage ls st) =
     last_n 20 (recent_damages st @ List.map_filter (search damage_re) ls)"
proof (induction ls arbitrary: st)
  case Nil
  then show ?case by (simp add: feed_damage_def map_filter_simps last_n_short)
next
  case (Cons l ls)
  let ?st1 = "snd (match_damage l st)"
  show ?case
  proof (cases "search damage_re l")
    case None
    then have "?st1 = st" by (simp add: match_damage_def)
    with Cons None show ?thesis by (simp add: feed_damage_def map_filter_simps)
  next
    case (Some m)
    have w1: "recent_damages ?st1 = last_n 20 (recent_damages st @ [m])"
      using Some Cons.prems last_n_step[of "recent_damages st" m]
      by (simp add: match_damage_window)
    then have len1: "length (recent_damages ?st1) \<le> 20" by (simp add: length_last_n)
    have "recent_damages (feed_damage (l # ls) st) = recent_damages (feed_damage ls ?st1)"
      by (simp add: feed_damage_def)
    also have "\<dots> = last_n 20 (recent_damages ?st1 @ List.map_filter (search damage_re) ls)"
      using Cons.IH[OF len1] .
    also have "\<dots> = last_n 20 (recent_damages st @ List.map_filter (search damage_re) (l # ls))"
      using Some
        last_n_last_n_append[of 20 "recent_damages st @ [m]" "List.map_filter (search damage_re) ls"]
      by (simp add: w1 map_filter_simps)
    finally show ?thesis .
  qed
qed

lemma replicate_19_snoc: "replicate 19 x @ [x] = replicate 20 x"
proof -
  have "replicate 19 x @ [x] = replicate (Suc 19) x"
    by (simp only: replicate_append_same replicate_Suc)
  then show ?thesis by simp
qed

lemma replicate_19_cons: "x # replicate 19 x = replicate 20 x"
proof -
  have "x # replicate 19 x = replicate (Suc 19) x" by (simp only: replicate_Suc)
  then show ?thesis by simp
qed

text \<open>
  C5. Whatever lines are fed to \<open>_match_damage\<close>, starting from a window of at most 20
  entries (the empty one of \<open>__init__\<close> in particular), the window afterwards has at
  most 20 entries and holds exactly the last 20 of the old entries followed by the
  matches of the lines, in the order of insertion; an insertion into a window of 20
  deletes the oldest entry and puts the new one last.
\<close>

theorem damage_window_bounded_fifo:
  "length (recent_damages st) \<le> 20 \<Longrightarrow>
     length (recent_damages (feed_damage ls st)) \<le> 20 \<and>
     recent_damages (feed_damage ls st) =
       last_n 20 (recent_damages st @ List.map_filter (search damage_re) ls) \<and>
     recent_damages (feed_damage ls init) = last_n 20 (List.map_filter (search damage_re) ls) \<and>
     (\<forall>line m. search damage_re line = Some m \<and> length (recent_damages st) = 20 \<longrightarrow>
        recent_damages (snd (match_damage line st)) = tl (recent_damages st) @ [m])"
proof -
  assume len: "length (recent_damages st) \<le> 20"
  have a: "recent_damages (feed_damage ls st) =
       last_n 20 (recent_damages st @ List.map_filter (search damage_re) ls)"
    using len by (rule feed_damage_window)
  have b: "length (recent_damages (feed_damage ls st)) \<le> 20"
    unfolding a by (rule length_last_n)
  have c: "recent_damages (feed_damage ls init) = last_n 20 (List.map_filter (search damage_re) ls)"
    using feed_damage_window[of init ls] by (simp add: init_def)
  have d: "\<forall>line m. search damage_re line = Some m \<and> length (recent_damages st) = 20 \<longrightarrow>
        recent_damages (snd (match_damage line st)) = tl (recent_damages st) @ [m]"
    by (auto simp: match_damage_window) (cases "recent_damages st", auto)
  from a b c d show ?thesis by blast
qed

theorem damage_window_bounded_fifo_witness:
  "length (recent_damages full_window) \<le> 20 \<and>
   search damage_re dmg_line_55 = Some dmg_55 \<and>
   length (recent_damages full_window) = 20 \<and>
   recent_damages (feed_damage [dmg_line_55] full_window) = replicate 20 dmg_55 \<and>
   recent_damages (snd (match_damage dmg_line_55 full_window)) = replicate 20 dmg_55"
proof -
  have len: "length (recent_damages full_window) \<le> 20"
    by (simp add: full_window_def)
  show ?thesis
    using damage_window_bounded_fifo[OF len, of "[dmg_line_55]"] search_dmg_line_55
      replicate_19_snoc replicate_19_cons
    by (simp add: full_window_def last_n_def map_filter_simps)
qed

section \<open>The teamkill correlator\<close>

lemma match_log_ids_none:
  "\<forall>d\<in>set ds. re_group d ''log_id'' \<noteq> lid \<Longrightarrow> match_log_ids lid ds st = (Inr None, st)"
  by (induction ds) auto

lemma match_log_ids_find:
  "find (\<lambda>d. re_group d ''log_id'' = lid) ds = Some dmg \<Longrightarrow>
   match_log_ids lid ds st =
     (case strptime (re_group dmg ''time'') of
        Inl e \<Rightarrow> (Inl e, st)
      | Inr t \<Rightarrow>
          (Inr (Some \<lparr>time_utc = localize t, victim = re_group dmg ''victim'',
                      killer = re_group dmg ''killer'', weapon = re_group dmg ''weapon''\<rparr>),
           st\<lparr>seen_tks := insert lid (seen_tks st)\<rparr>))"
  by (induction ds) (auto split: if_splits)

lemma match_log_ids_frame:
  "last_log_id (snd (match_log_ids lid ds st)) = last_log_id st"
  "recent_damages (snd (match_log_ids lid ds st)) = recent_damages st"
  "active_admin_cam_users (snd (match_log_ids lid ds st)) = active_admin_cam_users st"
  "admincam_file (snd (match_log_ids lid ds st)) = admincam_file st"
  "seen_tks st \<subseteq> seen_tks (snd (match_log_ids lid ds st))"
  "seen_tks (snd (match_log_ids lid ds st)) \<subseteq> insert lid (seen_tks st)"
  by (induction ds; auto split: sum.splits)+

lemma match_teamkill_Some:
  "search teamkill_re line = Some m \<Longrightarrow>
   match_teamkill line st =
     (if re_group m ''log_id'' \<in> seen_tks (after_check (re_group m ''log_id'') st)
      then (Inr None, after_check (re_group m ''log_id'') st)
      else match_log_ids (re_group m ''log_id'') (recent_damages st)
             (after_check (re_group m ''log_id'') st))"
  by (simp add: match_teamkill_def after_check_def Let_def)

lemma group_samples:
  "re_group dmg_55 ''log_id'' = ''55''" "re_group dmg_55 ''time'' = ''2024.01.01-00.00.00:000''"
  "re_group dmg_55 ''victim'' = ''V''" "re_group dmg_55 ''killer'' = ''K''" "re_group dmg_55 ''weapon'' = ''AK47''"
  "re_group dmg_400 ''log_id'' = ''400''" "re_group dmg_400 ''time'' = ''2024.01.01-00.01.00:000''"
  "re_group dmg_400 ''victim'' = ''V''" "re_group dmg_400 ''killer'' = ''K''" "re_group dmg_400 ''weapon'' = ''M4''"
  "re_group dmg_0400 ''log_id'' = ''0400''" "re_group dmg_0400 ''time'' = ''2024.01.01-00.01.00:000''"
  "re_group dmg_0400 ''victim'' = ''V''" "re_group dmg_0400 ''killer'' = ''K''" "re_group dmg_0400 ''weapon'' = ''M4''"
  "re_group [(''log_id'', i)] ''log_id'' = i"
  by (simp_all add: re_group_def dmg_55_def dmg_400_def dmg_0400_def)

text \<open>
  C3. For a teamkill line with log id \<open>i\<close> met with \<open>last_log_id = L\<close>: when
  \<open>i + 500 < L\<close> the set of seen ids is emptied before the duplicate check, so the line
  goes on to the lookup in the damage window as a new one, whatever the set held, and
  nothing but \<open>i\<close> can be in the set afterwards; when \<open>i + 500 < L\<close> does not hold
  nothing is removed from the set. In every case, also when the line is dropped as a
  duplicate or finds no damage or the lookup raises, \<open>last_log_id\<close> is \<open>i\<close>
  afterwards.
\<close>

theorem wraparound_clear_and_last_id:
  "search teamkill_re line = Some m \<Longrightarrow>
     last_log_id (snd (match_teamkill line st)) = py_int (re_group m ''log_id'') \<and>
     (py_int (re_group m ''log_id'') + 500 < last_log_id st \<longrightarrow>
        match_teamkill line st =
          match_log_ids (re_group m ''log_id'') (recent_damages st)
            (st\<lparr>seen_tks := {}, last_log_id := py_int (re_group m ''log_id'')\<rparr>) \<and>
        seen_tks (snd (match_teamkill line st)) \<subseteq> {re_group m ''log_id''}) \<and>
     (\<not> py_int (re_group m ''log_id'') + 500 < last_log_id st \<longrightarrow>
        seen_tks st \<subseteq> seen_tks (snd (match_teamkill line st)))"
proof -
  assume s: "search teamkill_re line = Some m"
  let ?lid = "re_group m ''log_id''"
  let ?st2 = "after_check ?lid st"
  note mt = match_teamkill_Some[OF s, of st]
  have last: "last_log_id (snd (match_teamkill line st)) = py_int ?lid"
    unfolding mt by (simp add: match_log_ids_frame) (simp add: after_check_def)
  have wrap: "match_teamkill line st =
          match_log_ids ?lid (recent_damages st) (st\<lparr>seen_tks := {}, last_log_id := py_int ?lid\<rparr>) \<and>
        seen_tks (snd (match_teamkill line st)) \<subseteq> {?lid}"
    if w: "py_int ?lid + 500 < last_log_id st"
  proof -
    have st2: "?st2 = st\<lparr>seen_tks := {}, last_log_id := py_int ?lid\<rparr>"
      using w by (simp add: after_check_def)
    have eq: "match_teamkill line st = match_log_ids ?lid (recent_damages st) ?st2"
      unfolding mt using w by (simp add: after_check_def)
    have "seen_tks (snd (match_log_ids ?lid (recent_damages st) ?st2)) \<subseteq> insert ?lid (seen_tks ?st2)"
      by (rule match_log_ids_frame)
    then have "seen_tks (snd (match_teamkill line st)) \<subseteq> {?lid}"
      unfolding eq st2 by simp
    with eq st2 show ?thesis by simp
  qed
  have nowrap: "seen_tks st \<subseteq> seen_tks (snd (match_teamkill line st))"
    if w: "\<not> py_int ?lid + 500 < last_log_id st"
  proof -
    have st2: "seen_tks ?st2 = seen_tks st" using w by (simp add: after_check_def)
    have "seen_tks ?st2 \<subseteq> seen_tks (snd (match_log_ids ?lid (recent_damages st) ?st2))"
      by (rule match_log_ids_frame)
    then show ?thesis unfolding mt st2 by (simp add: st2)
  qed
  from last wrap nowrap show ?thesis by blast
qed

theorem wraparound_clear_and_last_id_witness:
  "search teamkill_re tk_line_400 = Some [(''log_id'', ''400'')] \<and>
   last_log_id after_1000 = 1000 \<and> py_int ''400'' + 500 < last_log_id after_1000 \<and>
   ''400'' \<in> seen_tks after_1000 \<and>
   last_log_id (snd (match_teamkill tk_line_400 after_1000)) = 400 \<and>
   seen_tks (snd (match_teamkill tk_line_400 after_1000)) \<subseteq> {''400''} \<and>
   match_teamkill tk_line_400 after_1000 =
     (Inr (Some \<lparr>time_utc = \<lparr>year = 2024, month = 1, day = 1, hour = 0, minute = 1, second = 0,
                              microsecond = 0, tzinfo = Some UTC\<rparr>,
                  victim = ''V'', killer = ''K'', weapon = ''M4''\<rparr>),
      after_1000\<lparr>seen_tks := {''400''}, last_log_id := 400\<rparr>)"
  using wraparound_clear_and_last_id[OF search_tk_line_400, of after_1000]
  by (simp add: search_tk_line_400 after_1000_def init_def group_samples py_int_samples
      strptime_sample_1 localize_def)


lemma match_damage_init:
  "search damage_re line = Some d \<Longrightarrow> match_damage line init = (True, init\<lparr>recent_damages := [d]\<rparr>)"
  by (simp add: match_damage_def init_def)






lemma find_snoc_new:
  "\<forall>x\<in>set xs. \<not> P x \<Longrightarrow> P d \<Longrightarrow> find P (xs @ [d]) = Some d"
  by (induction xs) auto

lemma find_tl_snoc_new:
  "\<forall>x\<in>set xs. \<not> P x \<Longrightarrow> P d \<Longrightarrow> xs \<noteq> [] \<Longrightarrow> find P (tl (xs @ [d])) = Some d"
  by (cases xs) (auto simp: find_snoc_new)

lemma match_damage_frame:
  "seen_tks (snd (match_damage line st)) = seen_tks st"
  "last_log_id (snd (match_damage line st)) = last_log_id st"
  "active_admin_cam_users (snd (match_damage line st)) = active_admin_cam_users st"
  "admincam_file (snd (match_damage line st)) = admincam_file st"
  by (simp_all add: match_damage_def Let_def split: option.splits)

lemma match_damage_find_new:
  assumes d: "search damage_re dline = Some d"
    and new: "\<forall>x\<in>set (recent_damages st). re_group x ''log_id'' \<noteq> re_group d ''log_id''"
  shows "find (\<lambda>x. re_group x ''log_id'' = re_group d ''log_id'')
           (recent_damages (snd (match_damage dline st))) = Some d"
proof (cases "recent_damages st = []")
  case True
  then show ?thesis using d by (simp add: match_damage_window)
next
  case False
  show ?thesis
    using d new False
      find_snoc_new[of "recent_damages st" "\<lambda>x. re_group x ''log_id'' = re_group d ''log_id''" d]
      find_tl_snoc_new[of "recent_damages st" "\<lambda>x. re_group x ''log_id'' = re_group d ''log_id''" d]
    by (simp add: match_damage_window)
qed

lemma match_teamkill_hit:
  assumes s: "search teamkill_re line = Some m"
    and unseen: "re_group m ''log_id'' \<notin> seen_tks st"
    and f: "find (\<lambda>d. re_group d ''log_id'' = re_group m ''log_id'') (recent_damages st) = Some dmg"
    and t: "strptime (re_group dmg ''time'') = Inr t"
  shows "match_teamkill line st =
       (Inr (Some \<lparr>time_utc = localize t, victim = re_group dmg ''victim'',
                   killer = re_group dmg ''killer'', weapon = re_group dmg ''weapon''\<rparr>),
        (after_check (re_group m ''log_id'') st)
          \<lparr>seen_tks := insert (re_group m ''log_id'')
                          (seen_tks (after_check (re_group m ''log_id'') st))\<rparr>)"
proof -
  have "re_group m ''log_id'' \<notin> seen_tks (after_check (re_group m ''log_id'') st)"
    using unseen by (simp add: after_check_def)
  then show ?thesis
    by (simp add: match_teamkill_Some[OF s] match_log_ids_find[OF f] t)
qed

text \<open>
  C4, as it holds. A teamkill line whose log id is not among the seen ids and is the log
  id of no buffered damage record returns \<open>None\<close> and does not add its id to the seen
  ids: the set is what the wraparound check of this call leaves, the old set when the
  check does not fire and the empty set when it does. When a damage line with that log
  id (and a time that parses) is buffered afterwards, the same teamkill line correlates
  with it.
\<close>

theorem uncorrelated_teamkill_not_marked:
  "search teamkill_re line = Some m \<Longrightarrow>
   re_group m ''log_id'' \<notin> seen_tks st \<Longrightarrow>
   \<forall>d\<in>set (recent_damages st). re_group d ''log_id'' \<noteq> re_group m ''log_id'' \<Longrightarrow>
     match_teamkill line st = (Inr None, after_check (re_group m ''log_id'') st) \<and>
     re_group m ''log_id'' \<notin> seen_tks (snd (match_teamkill line st)) \<and>
     (\<not> py_int (re_group m ''log_id'') + 500 < last_log_id st \<longrightarrow>
        seen_tks (snd (match_teamkill line st)) = seen_tks st) \<and>
     (py_int (re_group m ''log_id'') + 500 < last_log_id st \<longrightarrow>
        seen_tks (snd (match_teamkill line st)) = {}) \<and>
     (\<forall>dline d t.
        search damage_re dline = Some d \<and> re_group d ''log_id'' = re_group m ''log_id'' \<and>
        strptime (re_group d ''time'') = Inr t \<longrightarrow>
        fst (match_teamkill line (snd (match_damage dline (snd (match_teamkill line st))))) =
          Inr (Some \<lparr>time_utc = localize t, victim = re_group d ''victim'',
                     killer = re_group d ''killer'', weapon = re_group d ''weapon''\<rparr>))"
proof -
  assume s: "search teamkill_re line = Some m"
    and unseen: "re_group m ''log_id'' \<notin> seen_tks st"
    and nodmg: "\<forall>d\<in>set (recent_damages st). re_group d ''log_id'' \<noteq> re_group m ''log_id''"
  let ?lid = "re_group m ''log_id''"
  let ?st1 = "after_check ?lid st"
  have u1: "?lid \<notin> seen_tks ?st1" using unseen by (simp add: after_check_def)
  have eq: "match_teamkill line st = (Inr None, ?st1)"
    using u1 by (simp add: match_teamkill_Some[OF s] match_log_ids_none[OF nodmg])
  have later: "fst (match_teamkill line (snd (match_damage dline (snd (match_teamkill line st))))) =
          Inr (Some \<lparr>time_utc = localize t, victim = re_group d ''victim'',
                     killer = re_group d ''killer'', weapon = re_group d ''weapon''\<rparr>)"
    if d: "search damage_re dline = Some d" and id: "re_group d ''log_id'' = ?lid"
      and t: "strptime (re_group d ''time'') = Inr t" for dline d t
  proof -
    let ?st2 = "snd (match_damage dline ?st1)"
    have w1: "recent_damages ?st1 = recent_damages st" by (simp add: after_check_def)
    have f: "find (\<lambda>x. re_group x ''log_id'' = ?lid) (recent_damages ?st2) = Some d"
      using match_damage_find_new[OF d, of ?st1] nodmg by (simp add: id w1)
    have u2: "?lid \<notin> seen_tks ?st2" using u1 by (simp add: match_damage_frame)
    show ?thesis
      unfolding eq snd_conv
      using match_teamkill_hit[OF s u2 f t] by simp
  qed
  from eq u1 later show ?thesis by (auto simp: after_check_def)
qed

theorem uncorrelated_teamkill_not_marked_witness:
  "search teamkill_re tk_line_55 = Some [(''log_id'', ''55'')] \<and>
   ''55'' \<notin> seen_tks init \<and> recent_damages init = [] \<and>
   \<not> py_int ''55'' + 500 < last_log_id init \<and>
   match_teamkill tk_line_55 init = (Inr None, init\<lparr>last_log_id := 55\<rparr>) \<and>
   seen_tks (snd (match_teamkill tk_line_55 init)) = seen_tks init \<and>
   search damage_re dmg_line_55 = Some dmg_55 \<and>
   fst (match_teamkill tk_line_55 (snd (match_damage dmg_line_55 (snd (match_teamkill tk_line_55 init)))))
     = Inr (Some \<lparr>time_utc = \<lparr>year = 2024, month = 1, day = 1, hour = 0, minute = 0, second = 0,
                               microsecond = 0, tzinfo = Some UTC\<rparr>,
                   victim = ''V'', killer = ''K'', weapon = ''AK47''\<rparr>) \<and>
   search teamkill_re tk_line_400 = Some [(''log_id'', ''400'')] \<and>
   ''400'' \<notin> seen_tks stale_900 \<and> recent_damages stale_900 = [] \<and>
   py_int ''400'' + 500 < last_log_id stale_900 \<and>
   match_teamkill tk_line_400 stale_900 = (Inr None, stale_900\<lparr>seen_tks := {}, last_log_id := 400\<rparr>)"
proof -
  have u: "re_group [(''log_id'', ''55'')] ''log_id'' \<notin> seen_tks init"
    by (simp add: init_def)
  have n: "\<forall>d\<in>set (recent_damages init). re_group d ''log_id'' \<noteq> re_group [(''log_id'', ''55'')] ''log_id''"
    by (simp add: init_def)
  note th = uncorrelated_teamkill_not_marked[OF search_tk_line_55 u n]
  have t: "strptime (re_group dmg_55 ''time'') = Inr \<lparr>year = 2024, month = 1, day = 1, hour = 0,
      minute = 0, second = 0, microsecond = 0, tzinfo = None\<rparr>"
    by (simp add: group_samples strptime_sample_0)
  from th have all: "\<forall>dline d t.
        search damage_re dline = Some d \<and> re_group d ''log_id'' = re_group [(''log_id'', ''55'')] ''log_id'' \<and>
        strptime (re_group d ''time'') = Inr t \<longrightarrow>
        fst (match_teamkill tk_line_55 (snd (match_damage dline (snd (match_teamkill tk_line_55 init))))) =
          Inr (Some \<lparr>time_utc = localize t, victim = re_group d ''victim'',
                     killer = re_group d ''killer'', weapon = re_group d ''weapon''\<rparr>)"
    by blast
  from all[rule_format, of dmg_line_55 dmg_55 "\<lparr>year = 2024, month = 1, day = 1, hour = 0,
      minute = 0, second = 0, microsecond = 0, tzinfo = None\<rparr>"] search_dmg_line_55 t
  have later: "fst (match_teamkill tk_line_55 (snd (match_damage dmg_line_55 (snd (match_teamkill tk_line_55 init))))) =
          Inr (Some \<lparr>time_utc = localize \<lparr>year = 2024, month = 1, day = 1, hour = 0,
      minute = 0, second = 0, microsecond = 0, tzinfo = None\<rparr>, victim = re_group dmg_55 ''victim'',
                     killer = re_group dmg_55 ''killer'', weapon = re_group dmg_55 ''weapon''\<rparr>)"
    by (simp add: group_samples)
  from th have first: "match_teamkill tk_line_55 init =
      (Inr None, after_check (re_group [(''log_id'', ''55'')] ''log_id'') init)"
    by blast
  have u4: "re_group [(''log_id'', ''400'')] ''log_id'' \<notin> seen_tks stale_900"
    by (simp add: stale_900_def group_samples)
  have n4: "\<forall>d\<in>set (recent_damages stale_900).
      re_group d ''log_id'' \<noteq> re_group [(''log_id'', ''400'')] ''log_id''"
    by (simp add: stale_900_def init_def)
  from uncorrelated_teamkill_not_marked[OF search_tk_line_400 u4 n4]
  have wrap: "match_teamkill tk_line_400 stale_900 =
      (Inr None, after_check (re_group [(''log_id'', ''400'')] ''log_id'') stale_900)"
    by blast
  from first later wrap search_tk_line_55 search_tk_line_400 search_dmg_line_55 show ?thesis
    by (simp add: group_samples py_int_samples after_check_def init_def stale_900_def localize_def)
qed

theorem uncorrelated_teamkill_counterexample:
  "search teamkill_re tk_line_400 = Some [(''log_id'', ''400'')] \<and>
   ''400'' \<notin> seen_tks stale_900 \<and> recent_damages stale_900 = [] \<and>
   fst (match_teamkill tk_line_400 stale_900) = Inr None \<and>
   seen_tks stale_900 = {''900''} \<and>
   seen_tks (snd (match_teamkill tk_line_400 stale_900)) = {}"
  by (simp add: match_teamkill_Some[OF search_tk_line_400] search_tk_line_400 group_samples
      py_int_samples after_check_def init_def stale_900_def)

lemma match_teamkill_duplicate:
  "search teamkill_re line = Some m \<Longrightarrow> re_group m ''log_id'' \<in> seen_tks st \<Longrightarrow>
   \<not> py_int (re_group m ''log_id'') + 500 < last_log_id st \<Longrightarrow>
   match_teamkill line st = (Inr None, st\<lparr>last_log_id := py_int (re_group m ''log_id'')\<rparr>)"
  by (simp add: match_teamkill_Some after_check_def)

text \<open>
  C10. The wraparound test and \<open>last_log_id\<close> use the number a log id denotes, the
  duplicate check and the lookup in the damage window use its text. For two teamkill
  lines whose ids are different texts of the same number (\<open>0400\<close> and \<open>400\<close>):
  both ask for the wraparound clear in the same states and leave the same
  \<open>last_log_id\<close>; when the first id has been seen and the second has not, the first
  line is dropped as a duplicate while the second goes on to the lookup; and when every
  buffered damage record carries the first id, the second line finds no damage.
\<close>

theorem log_id_text_versus_number:
  "search teamkill_re l1 = Some m1 \<Longrightarrow> search teamkill_re l2 = Some m2 \<Longrightarrow>
   py_int (re_group m1 ''log_id'') = py_int (re_group m2 ''log_id'') \<Longrightarrow>
   re_group m1 ''log_id'' \<noteq> re_group m2 ''log_id'' \<Longrightarrow>
     wraps l1 st = wraps l2 st \<and>
     last_log_id (snd (match_teamkill l1 st)) = last_log_id (snd (match_teamkill l2 st)) \<and>
     (re_group m1 ''log_id'' \<in> seen_tks st \<and> re_group m2 ''log_id'' \<notin> seen_tks st \<and>
      \<not> wraps l1 st \<longrightarrow>
        match_teamkill l1 st = (Inr None, st\<lparr>last_log_id := py_int (re_group m1 ''log_id'')\<rparr>) \<and>
        match_teamkill l2 st =
          match_log_ids (re_group m2 ''log_id'') (recent_damages st)
            (st\<lparr>last_log_id := py_int (re_group m2 ''log_id'')\<rparr>)) \<and>
     (re_group m2 ''log_id'' \<notin> seen_tks st \<and>
      (\<forall>d\<in>set (recent_damages st). re_group d ''log_id'' = re_group m1 ''log_id'') \<longrightarrow>
        fst (match_teamkill l2 st) = Inr None)"
proof -
  assume s1: "search teamkill_re l1 = Some m1" and s2: "search teamkill_re l2 = Some m2"
    and num: "py_int (re_group m1 ''log_id'') = py_int (re_group m2 ''log_id'')"
    and neq: "re_group m1 ''log_id'' \<noteq> re_group m2 ''log_id''"
  let ?i1 = "re_group m1 ''log_id''" and ?i2 = "re_group m2 ''log_id''"
  have w: "wraps l1 st = wraps l2 st"
    using s1 s2 num by (simp add: wraps_def)
  have last: "last_log_id (snd (match_teamkill l1 st)) = last_log_id (snd (match_teamkill l2 st))"
    using num by (simp add: match_teamkill_Some[OF s1] match_teamkill_Some[OF s2]
        match_log_ids_frame after_check_def)
  have dedup: "match_teamkill l1 st = (Inr None, st\<lparr>last_log_id := py_int ?i1\<rparr>) \<and>
        match_teamkill l2 st =
          match_log_ids ?i2 (recent_damages st) (st\<lparr>last_log_id := py_int ?i2\<rparr>)"
    if "?i1 \<in> seen_tks st" "?i2 \<notin> seen_tks st" "\<not> wraps l1 st"
  proof -
    from that(3) have nw: "\<not> py_int ?i1 + 500 < last_log_id st" "\<not> py_int ?i2 + 500 < last_log_id st"
      using s1 num by (simp_all add: wraps_def)
    have "after_check ?i2 st = st\<lparr>last_log_id := py_int ?i2\<rparr>"
      using nw by (simp add: after_check_def)
    with that(2) have "match_teamkill l2 st =
          match_log_ids ?i2 (recent_damages st) (st\<lparr>last_log_id := py_int ?i2\<rparr>)"
      by (simp add: match_teamkill_Some[OF s2])
    with match_teamkill_duplicate[OF s1 that(1) nw(1)] show ?thesis by simp
  qed
  have corr: "fst (match_teamkill l2 st) = Inr None"
    if "?i2 \<notin> seen_tks st" "\<forall>d\<in>set (recent_damages st). re_group d ''log_id'' = ?i1"
  proof -
    have "\<forall>d\<in>set (recent_damages st). re_group d ''log_id'' \<noteq> ?i2"
      using that(2) neq by auto
    then have "match_log_ids ?i2 (recent_damages st) (after_check ?i2 st) = (Inr None, after_check ?i2 st)"
      by (rule match_log_ids_none)
    then show ?thesis by (simp add: match_teamkill_Some[OF s2])
  qed
  from w last dedup corr show ?thesis by blast
qed

theorem log_id_text_versus_number_witness:
  "search teamkill_re tk_line_400 = Some [(''log_id'', ''400'')] \<and>
   search teamkill_re tk_line_0400 = Some [(''log_id'', ''0400'')] \<and>
   py_int ''400'' = py_int ''0400'' \<and> ''400'' \<noteq> ''0400'' \<and>
   ''400'' \<in> seen_tks seen_400 \<and> ''0400'' \<notin> seen_tks seen_400 \<and> \<not> wraps tk_line_400 seen_400 \<and>
   match_teamkill tk_line_400 seen_400 = (Inr None, seen_400) \<and>
   match_teamkill tk_line_0400 seen_400 =
     (Inr (Some \<lparr>time_utc = \<lparr>year = 2024, month = 1, day = 1, hour = 0, minute = 1, second = 0,
                              microsecond = 0, tzinfo = Some UTC\<rparr>,
                  victim = ''V'', killer = ''K'', weapon = ''M4''\<rparr>),
      seen_400\<lparr>seen_tks := {''0400'', ''400''}\<rparr>) \<and>
   ''0400'' \<notin> seen_tks only_400 \<and>
   recent_damages only_400 = [dmg_400] \<and> re_group dmg_400 ''log_id'' = ''400'' \<and>
   fst (match_teamkill tk_line_0400 only_400) = Inr None \<and>
   last_log_id (snd (match_teamkill tk_line_400 only_400)) =
     last_log_id (snd (match_teamkill tk_line_0400 only_400))"
proof -
  have num: "py_int (re_group [(''log_id'', ''400'')] ''log_id'') =
      py_int (re_group [(''log_id'', ''0400'')] ''log_id'')"
    by (simp add: group_samples py_int_samples)
  have neq: "re_group [(''log_id'', ''400'')] ''log_id'' \<noteq> re_group [(''log_id'', ''0400'')] ''log_id''"
    by (simp add: group_samples)
  note th = log_id_text_versus_number[OF search_tk_line_400 search_tk_line_0400 num neq]
  have nw: "\<not> wraps tk_line_400 seen_400"
    by (simp add: wraps_def search_tk_line_400 group_samples py_int_samples seen_400_def)
  have s400: "seen_400\<lparr>last_log_id := 400\<rparr> = seen_400"
    by (simp add: seen_400_def)
  show ?thesis
    using th[of seen_400] th[of only_400] nw search_tk_line_400 search_tk_line_0400
    by (simp add: group_samples py_int_samples seen_400_def only_400_def init_def
        strptime_sample_1 localize_def insert_commute)
qed

lemma write_admincam_frame:
  "recent_damages (snd (write_admincam ok m ch st)) = recent_damages st"
  "seen_tks (snd (write_admincam ok m ch st)) = seen_tks st"
  "last_log_id (snd (write_admincam ok m ch st)) = last_log_id st"
  "active_admin_cam_users (snd (write_admincam ok m ch st)) = active_admin_cam_users st"
  by (simp_all add: write_admincam_def Let_def split: sum.splits)

lemma write_admincam_not_False: "fst (write_admincam ok m ch st) \<noteq> Inr False"
  by (simp add: write_admincam_def Let_def split: sum.splits)

lemma match_admincam_frame:
  "recent_damages (snd (match_admincam ok line st)) = recent_damages st"
  "seen_tks (snd (match_admincam ok line st)) = seen_tks st"
  "last_log_id (snd (match_admincam ok line st)) = last_log_id st"
  by (simp_all add: match_admincam_def write_admincam_frame split: option.splits)

lemma match_admincam_False:
  "fst (match_admincam ok line st) = Inr False \<Longrightarrow> snd (match_admincam ok line st) = st"
  using write_admincam_not_False
  by (auto simp: match_admincam_def split: option.splits if_splits)

lemma match_damage_None: "search damage_re line = None \<Longrightarrow> match_damage line st = (False, st)"
  by (simp add: match_damage_def)

lemma match_damage_fst: "fst (match_damage line st) = (search damage_re line \<noteq> None)"
  by (simp add: match_damage_def Let_def split: option.splits)

lemma parse_line_unfold:
  "parse_line ok line st =
     (if fst (match_admincam ok line st) \<noteq> Inr False
      then (case fst (match_admincam ok line st) of
              Inl e \<Rightarrow> (Inl e, snd (match_admincam ok line st))
            | Inr _ \<Rightarrow> (Inr None, snd (match_admincam ok line st)))
      else if search damage_re line \<noteq> None then (Inr None, snd (match_damage line st))
      else match_teamkill line st)"
proof (cases "match_admincam ok line st")
  case (Pair r st')
  show ?thesis
  proof (cases r)
    case (Inl e)
    with Pair show ?thesis by (simp add: parse_line_def)
  next
    case (Inr b)
    show ?thesis
    proof (cases b)
      case True
      with Pair Inr show ?thesis by (simp add: parse_line_def)
    next
      case False
      with Pair Inr have "st' = st" using match_admincam_False[of ok line st] by simp
      with Pair Inr False show ?thesis
        by (cases "match_damage line st")
          (use match_damage_fst[of line st] match_damage_None[of line st] in
            \<open>auto simp: parse_line_def\<close>)
    qed
  qed
qed









lemma write_admincam_cases:
  "write_admincam ok m ch st =
     (case strptime (re_group m ''time'') of
        Inl e \<Rightarrow> (Inl e, st)
      | Inr t \<Rightarrow>
          if ok then (Inr True, st\<lparr>admincam_file := admincam_file st @
                                      [audit_entry t ch (re_group m ''user'')]\<rparr>)
          else (Inl OSError, st))"
  by (simp add: write_admincam_def audit_entry_def Let_def split: sum.splits)

lemma match_admincam_active:
  "active_admin_cam_users (snd (match_admincam ok line st)) =
     step_users (transition_of line) (active_admin_cam_users st)"
  by (auto simp: match_admincam_def transition_of_def write_admincam_frame split: option.splits)

lemma match_teamkill_frame:
  "recent_damages (snd (match_teamkill line st)) = recent_damages st"
  "active_admin_cam_users (snd (match_teamkill line st)) = active_admin_cam_users st"
  "admincam_file (snd (match_teamkill line st)) = admincam_file st"
proof -
  show "recent_damages (snd (match_teamkill line st)) = recent_damages st"
  proof (cases "search teamkill_re line")
    case None
    then show ?thesis by (simp add: match_teamkill_def)
  next
    case (Some m)
    show ?thesis
      by (simp add: match_teamkill_Some[OF Some] match_log_ids_frame) (simp add: after_check_def)
  qed
  show "active_admin_cam_users (snd (match_teamkill line st)) = active_admin_cam_users st"
  proof (cases "search teamkill_re line")
    case None
    then show ?thesis by (simp add: match_teamkill_def)
  next
    case (Some m)
    show ?thesis
      by (simp add: match_teamkill_Some[OF Some] match_log_ids_frame) (simp add: after_check_def)
  qed
  show "admincam_file (snd (match_teamkill line st)) = admincam_file st"
  proof (cases "search teamkill_re line")
    case None
    then show ?thesis by (simp add: match_teamkill_def)
  next
    case (Some m)
    show ?thesis
      by (simp add: match_teamkill_Some[OF Some] match_log_ids_frame) (simp add: after_check_def)
  qed
qed





lemma last_transition_user: "last_transition u ls = Some t \<Longrightarrow> user_of t = u"
proof -
  assume a: "last_transition u ls = Some t"
  then obtain r where "filter (\<lambda>t. user_of t = u) (List.map_filter transition_of (rev ls)) = t # r"
    by (auto simp: last_transition_def split: list.splits)
  then have "t \<in> set (filter (\<lambda>t. user_of t = u) (List.map_filter transition_of (rev ls)))"
    by simp
  then show ?thesis by simp
qed



lemma match_admincam_possess:
  "search possess_re line = Some m \<Longrightarrow>
   match_admincam ok line st =
     write_admincam ok m ''++++++++++++ ENTER''
       (st\<lparr>active_admin_cam_users := insert (re_group m ''user'') (active_admin_cam_users st)\<rparr>)"
  by (simp add: match_admincam_def)

lemma match_admincam_unpossess:
  "search possess_re line = None \<Longrightarrow> search unpossess_re line = Some m \<Longrightarrow>
   match_admincam ok line st =
     (if re_group m ''user'' \<notin> active_admin_cam_users st then (Inr False, st)
      else write_admincam ok m ''--- POSSIBLE LEAVE''
             (st\<lparr>active_admin_cam_users := active_admin_cam_users st - {re_group m ''user''}\<rparr>))"
  by (simp add: match_admincam_def)















lemma search_possess_damage_line:
  "search possess_re possess_damage_line =
     Some [(''user'', ''Eve''), (''log_id'', ''3''), (''time'', ''2024.01.01-00.00.00:000'')]"
  "search damage_re possess_damage_line =
     Some [(''weapon'', ''M4''), (''killer'', ''K''),
           (''victim'', ''ASQPlayerController::Possess PC=Eve Pawn=CameraMan_C_''),
           (''log_id'', ''3''), (''time'', ''2024.01.01-00.00.00:000'')]"
  by code_simp+

lemma search_damage_teamkill_line:
  "search possess_re damage_teamkill_line = None"
  "search unpossess_re damage_teamkill_line = None"
  "search damage_re damage_teamkill_line =
     Some [(''weapon'', ''M4''), (''killer'', ''K''), (''victim'', ''V''),
           (''log_id'', ''900''), (''time'', ''2024.01.01-00.00.00:000'')]"
  "search teamkill_re damage_teamkill_line = Some [(''log_id'', ''900'')]"
  by code_simp+

lemma search_decode_error_line:
  "search possess_re decode_error_line = None" "search unpossess_re decode_error_line = None"
  "search damage_re decode_error_line = None" "search teamkill_re decode_error_line = None"
  by code_simp+

lemma match_admincam_False_iff:
  "fst (match_admincam ok line st) = Inr False \<longleftrightarrow>
     (search possess_re line = None \<and>
      (\<forall>m. search unpossess_re line = Some m \<longrightarrow> re_group m ''user'' \<notin> active_admin_cam_users st))"
proof (cases "search possess_re line")
  case (Some m)
  then show ?thesis
    using write_admincam_not_False by (simp add: match_admincam_possess)
next
  case None
  show ?thesis
  proof (cases "search unpossess_re line")
    case n: None
    with None show ?thesis by (simp add: match_admincam_def)
  next
    case (Some m)
    with None show ?thesis
      using write_admincam_not_False by (simp add: match_admincam_unpossess)
  qed
qed

text \<open>
  C6, as it holds. \<open>parse_line\<close> asks \<open>_match_admincam\<close> first, then the damage
  pattern, then the teamkill pattern, and stops at the first that takes the line, so
  that at most one of the three changes the monitor. \<open>_match_admincam\<close> takes a line
  (it returns \<open>True\<close> or raises) when the possess pattern matches, or when it does not
  and the unpossess pattern matches for a user who is active; an unpossess line for a
  user who is not active is not taken and goes on to the damage and teamkill patterns.
  When \<open>_match_admincam\<close> takes the line the result carries no teamkill and the damage
  window, the seen ids and \<open>last_log_id\<close> are untouched, also when the line fits the
  damage or teamkill pattern. When it does not and the damage pattern matches, the line
  is buffered, the result is \<open>None\<close> and nothing else changes, also when the line fits
  the teamkill pattern. Otherwise the outcome is that of \<open>_match_teamkill\<close>, which
  leaves the damage window, the active users and the audit file alone. A line that fits
  none of the four patterns returns \<open>None\<close> without an error and leaves the monitor as
  it was.
\<close>

theorem parse_line_priority:
  "(fst (match_admincam ok line st) \<noteq> Inr False \<longrightarrow>
      parse_line ok line st =
        ((case fst (match_admincam ok line st) of Inl e \<Rightarrow> Inl e | Inr b \<Rightarrow> Inr None),
         snd (match_admincam ok line st)) \<and>
      recent_damages (snd (parse_line ok line st)) = recent_damages st \<and>
      seen_tks (snd (parse_line ok line st)) = seen_tks st \<and>
      last_log_id (snd (parse_line ok line st)) = last_log_id st) \<and>
   (fst (match_admincam ok line st) = Inr False \<and> search damage_re line \<noteq> None \<longrightarrow>
      parse_line ok line st = (Inr None, snd (match_damage line st)) \<and>
      seen_tks (snd (parse_line ok line st)) = seen_tks st \<and>
      last_log_id (snd (parse_line ok line st)) = last_log_id st \<and>
      active_admin_cam_users (snd (parse_line ok line st)) = active_admin_cam_users st \<and>
      admincam_file (snd (parse_line ok line st)) = admincam_file st) \<and>
   (fst (match_admincam ok line st) = Inr False \<and> search damage_re line = None \<longrightarrow>
      parse_line ok line st = match_teamkill line st \<and>
      recent_damages (snd (parse_line ok line st)) = recent_damages st \<and>
      active_admin_cam_users (snd (parse_line ok line st)) = active_admin_cam_users st \<and>
      admincam_file (snd (parse_line ok line st)) = admincam_file st) \<and>
   (fst (match_admincam ok line st) = Inr False \<longleftrightarrow>
      (search possess_re line = None \<and>
       (\<forall>m. search unpossess_re line = Some m \<longrightarrow>
          re_group m ''user'' \<notin> active_admin_cam_users st))) \<and>
   (search possess_re line = None \<and> search unpossess_re line = None \<and>
    search damage_re line = None \<and> search teamkill_re line = None \<longrightarrow>
      parse_line ok line st = (Inr None, st))"
proof -
  have a: "parse_line ok line st =
        ((case fst (match_admincam ok line st) of Inl e \<Rightarrow> Inl e | Inr b \<Rightarrow> Inr None),
         snd (match_admincam ok line st)) \<and>
      recent_damages (snd (parse_line ok line st)) = recent_damages st \<and>
      seen_tks (snd (parse_line ok line st)) = seen_tks st \<and>
      last_log_id (snd (parse_line ok line st)) = last_log_id st"
    if t: "fst (match_admincam ok line st) \<noteq> Inr False"
  proof -
    have eq: "parse_line ok line st =
        ((case fst (match_admincam ok line st) of Inl e \<Rightarrow> Inl e | Inr b \<Rightarrow> Inr None),
         snd (match_admincam ok line st))"
      using t by (simp add: parse_line_unfold split: sum.splits)
    have "snd (parse_line ok line st) = snd (match_admincam ok line st)"
      unfolding eq by simp
    with eq show ?thesis by (simp add: match_admincam_frame)
  qed
  have b: "parse_line ok line st = (Inr None, snd (match_damage line st)) \<and>
      seen_tks (snd (parse_line ok line st)) = seen_tks st \<and>
      last_log_id (snd (parse_line ok line st)) = last_log_id st \<and>
      active_admin_cam_users (snd (parse_line ok line st)) = active_admin_cam_users st \<and>
      admincam_file (snd (parse_line ok line st)) = admincam_file st"
    if "fst (match_admincam ok line st) = Inr False" "search damage_re line \<noteq> None"
    using that by (simp add: parse_line_unfold match_damage_frame)
  have c: "parse_line ok line st = match_teamkill line st \<and>
      recent_damages (snd (parse_line ok line st)) = recent_damages st \<and>
      active_admin_cam_users (snd (parse_line ok line st)) = active_admin_cam_users st \<and>
      admincam_file (snd (parse_line ok line st)) = admincam_file st"
    if "fst (match_admincam ok line st) = Inr False" "search damage_re line = None"
    using that by (simp add: parse_line_unfold match_teamkill_frame)
  have d: "parse_line ok line st = (Inr None, st)"
    if "search possess_re line = None" "search unpossess_re line = None"
      "search damage_re line = None" "search teamkill_re line = None"
    using that by (simp add: parse_line_def match_admincam_def match_damage_def match_teamkill_def)
  from a b c d match_admincam_False_iff[of ok line st] show ?thesis by blast
qed

theorem parse_line_priority_witness:
  "search possess_re possess_damage_line =
     Some [(''user'', ''Eve''), (''log_id'', ''3''), (''time'', ''2024.01.01-00.00.00:000'')] \<and>
   search damage_re possess_damage_line \<noteq> None \<and>
   fst (match_admincam True possess_damage_line init) = Inr True \<and>
   fst (parse_line True possess_damage_line init) = Inr None \<and>
   active_admin_cam_users (snd (parse_line True possess_damage_line init)) = {''Eve''} \<and>
   recent_damages (snd (parse_line True possess_damage_line init)) = [] \<and>
   fst (match_admincam True damage_teamkill_line init) = Inr False \<and>
   search damage_re damage_teamkill_line \<noteq> None \<and>
   search teamkill_re damage_teamkill_line = Some [(''log_id'', ''900'')] \<and>
   parse_line True damage_teamkill_line init =
     (Inr None, init\<lparr>recent_damages :=
        [[(''weapon'', ''M4''), (''killer'', ''K''), (''victim'', ''V''),
          (''log_id'', ''900''), (''time'', ''2024.01.01-00.00.00:000'')]]\<rparr>) \<and>
   last_log_id (snd (parse_line True damage_teamkill_line init)) = 0 \<and>
   fst (match_admincam True decode_error_line init) = Inr False \<and>
   search damage_re decode_error_line = None \<and> search teamkill_re decode_error_line = None \<and>
   parse_line True decode_error_line init = (Inr None, init)"
proof -
  let ?me = "[(''user'', ''Eve''), (''log_id'', ''3''), (''time'', ''2024.01.01-00.00.00:000'')]"
  have g: "re_group ?me ''user'' = ''Eve''" "re_group ?me ''time'' = ''2024.01.01-00.00.00:000''"
    by (simp_all add: re_group_def)
  have a1: "fst (match_admincam True possess_damage_line init) = Inr True"
    by (simp add: match_admincam_possess[OF search_possess_damage_line(1)] write_admincam_cases g
        strptime_sample_0)
  have a2: "active_admin_cam_users (snd (match_admincam True possess_damage_line init)) = {''Eve''}"
    by (simp add: match_admincam_active transition_of_def search_possess_damage_line g init_def)
  have b1: "fst (match_admincam True damage_teamkill_line init) = Inr False"
    by (simp add: match_admincam_def search_damage_teamkill_line)
  have c1: "fst (match_admincam True decode_error_line init) = Inr False"
    by (simp add: match_admincam_def search_decode_error_line)
  note t1 = parse_line_priority[of True possess_damage_line init]
  note t2 = parse_line_priority[of True damage_teamkill_line init]
  note t3 = parse_line_priority[of True decode_error_line init]
  have ne: "fst (match_admincam True possess_damage_line init) \<noteq> Inr False"
    using a1 by simp
  from t1 ne have e1: "parse_line True possess_damage_line init =
        ((case fst (match_admincam True possess_damage_line init) of
            Inl e \<Rightarrow> Inl e | Inr b \<Rightarrow> Inr None),
         snd (match_admincam True possess_damage_line init))"
    and r1: "recent_damages (snd (parse_line True possess_damage_line init)) = recent_damages init"
    by blast+
  have p1: "fst (parse_line True possess_damage_line init) = Inr None"
    "active_admin_cam_users (snd (parse_line True possess_damage_line init)) = {''Eve''}"
    "recent_damages (snd (parse_line True possess_damage_line init)) = []"
    unfolding r1 unfolding e1 by (simp_all add: a1 a2) (simp add: init_def)
  have nn: "search damage_re damage_teamkill_line \<noteq> None"
    by (simp add: search_damage_teamkill_line)
  from t2 b1 nn have "parse_line True damage_teamkill_line init =
      (Inr None, snd (match_damage damage_teamkill_line init))"
    by blast
  then have p2: "parse_line True damage_teamkill_line init =
     (Inr None, init\<lparr>recent_damages :=
        [[(''weapon'', ''M4''), (''killer'', ''K''), (''victim'', ''V''),
          (''log_id'', ''900''), (''time'', ''2024.01.01-00.00.00:000'')]]\<rparr>)"
    by (simp add: match_damage_init[OF search_damage_teamkill_line(3)])
  from t3 search_decode_error_line
  have p3: "parse_line True decode_error_line init = (Inr None, init)"
    by blast
  from a1 b1 c1 p1 p3 search_possess_damage_line search_damage_teamkill_line
    search_decode_error_line
  show ?thesis unfolding p2 by (simp add: init_def)
qed

lemma search_unpossess_teamkill_line:
  "search possess_re unpossess_teamkill_line = None"
  "search unpossess_re unpossess_teamkill_line =
     Some [(''user'', ''Alice''), (''log_id'', ''55''), (''time'', ''2024.01.01-00.00.00:001'')]"
  "search damage_re unpossess_teamkill_line = None"
  "search teamkill_re unpossess_teamkill_line = Some [(''log_id'', ''55'')]"
  by code_simp+

theorem parse_line_priority_counterexample:
  "search possess_re unpossess_teamkill_line = None \<and>
   search unpossess_re unpossess_teamkill_line =
     Some [(''user'', ''Alice''), (''log_id'', ''55''), (''time'', ''2024.01.01-00.00.00:001'')] \<and>
   search teamkill_re unpossess_teamkill_line = Some [(''log_id'', ''55'')] \<and>
   ''Alice'' \<notin> active_admin_cam_users (init\<lparr>recent_damages := [dmg_55]\<rparr>) \<and>
   parse_line True unpossess_teamkill_line (init\<lparr>recent_damages := [dmg_55]\<rparr>) =
     (Inr (Some \<lparr>time_utc = \<lparr>year = 2024, month = 1, day = 1, hour = 0, minute = 0, second = 0,
                              microsecond = 0, tzinfo = Some UTC\<rparr>,
                  victim = ''V'', killer = ''K'', weapon = ''AK47''\<rparr>),
      init\<lparr>recent_damages := [dmg_55], seen_tks := {''55''}, last_log_id := 55\<rparr>)"
proof -
  let ?st = "init\<lparr>recent_damages := [dmg_55]\<rparr>"
  let ?mu = "[(''user'', ''Alice''), (''log_id'', ''55''), (''time'', ''2024.01.01-00.00.00:001'')]"
  have g: "re_group ?mu ''user'' = ''Alice''"
    by (simp add: re_group_def)
  have na: "match_admincam True unpossess_teamkill_line ?st = (Inr False, ?st)"
    by (simp add: match_admincam_unpossess[OF search_unpossess_teamkill_line(1,2)] g init_def)
  have nd: "match_damage unpossess_teamkill_line ?st = (False, ?st)"
    by (simp add: match_damage_def search_unpossess_teamkill_line)
  have u: "re_group [(''log_id'', ''55'')] ''log_id'' \<notin> seen_tks ?st"
    by (simp add: init_def)
  have f: "find (\<lambda>d. re_group d ''log_id'' = re_group [(''log_id'', ''55'')] ''log_id'') (recent_damages ?st)
     = Some dmg_55"
    by (simp add: group_samples)
  have t: "strptime (re_group dmg_55 ''time'') = Inr \<lparr>year = 2024, month = 1, day = 1, hour = 0,
      minute = 0, second = 0, microsecond = 0, tzinfo = None\<rparr>"
    by (simp add: group_samples strptime_sample_0)
  have p: "parse_line True unpossess_teamkill_line ?st =
     (Inr (Some \<lparr>time_utc = \<lparr>year = 2024, month = 1, day = 1, hour = 0, minute = 0, second = 0,
                              microsecond = 0, tzinfo = Some UTC\<rparr>,
                  victim = ''V'', killer = ''K'', weapon = ''AK47''\<rparr>),
      init\<lparr>recent_damages := [dmg_55], seen_tks := {''55''}, last_log_id := 55\<rparr>)"
  proof -
    have "parse_line True unpossess_teamkill_line ?st = match_teamkill unpossess_teamkill_line ?st"
      by (simp add: parse_line_def na nd)
    then show ?thesis
      unfolding match_teamkill_hit[OF search_unpossess_teamkill_line(4) u f t]
      by (simp add: group_samples py_int_samples after_check_def localize_def init_def)
  qed
  from p search_unpossess_teamkill_line show ?thesis
    by (simp add: init_def)
qed

lemma tk_line_55_only_teamkill:
  "search possess_re tk_line_55 = None" "search unpossess_re tk_line_55 = None"
  "search damage_re tk_line_55 = None"
  by code_simp+

lemma follow_line_fst:
  "fst (follow_line ok sz n (Some l) fl) = fst (parse_line ok l (monitor fl))"
  by (cases "parse_line ok l (monitor fl)") (simp add: follow_line_def Let_def)

text \<open>
  C9, as it holds. The check for truncation, with or without a reopen, leaves the whole
  monitor as it was: the damage window as well as the active users, the seen ids and
  \<open>last_log_id\<close>; the line counter is kept too. A reopen (the file is smaller than the
  size recorded) replaces only the open file, whose read offset is the end of the new
  file, and the recorded size; without a reopen nothing changes.
\<close>

theorem reopen_keeps_monitor:
  "check_truncated cur_size reopened fl = Inr fl' \<Longrightarrow>
     monitor fl' = monitor fl \<and>
     line_counter fl' = line_counter fl \<and>
     (\<forall>sz. cur_size = Some sz \<and> sz < file_size fl \<longrightarrow>
        reopened = Some (f_pos fl') \<and> file_size fl' = f_pos fl') \<and>
     (cur_size = None \<or> (\<exists>sz. cur_size = Some sz \<and> file_size fl \<le> sz) \<longrightarrow> fl' = fl)"
  by (cases cur_size; cases reopened) (auto simp: check_truncated_def split: if_splits)

theorem reopen_keeps_monitor_witness:
  "(1200::nat) < file_size follower_50000 \<and>
   check_truncated (Some 1200) (Some 1200) follower_50000 =
     Inr \<lparr>monitor = init\<lparr>recent_damages := [dmg_55]\<rparr>, f_pos = 1200, file_size = 1200,
          line_counter = 7\<rparr> \<and>
   monitor \<lparr>monitor = init\<lparr>recent_damages := [dmg_55]\<rparr>, f_pos = 1200, file_size = 1200,
          line_counter = 7\<rparr> = monitor follower_50000"
proof -
  have c: "check_truncated (Some 1200) (Some 1200) follower_50000 =
     Inr \<lparr>monitor = init\<lparr>recent_damages := [dmg_55]\<rparr>, f_pos = 1200, file_size = 1200,
          line_counter = 7\<rparr>"
    by (simp add: check_truncated_def follower_50000_def)
  from reopen_keeps_monitor[OF c] c show ?thesis
    by (simp add: follower_50000_def)
qed

theorem reopen_discards_counterexample:
  "(1200::nat) < file_size follower_50000 \<and>
   check_truncated (Some 1200) (Some 1200) follower_50000 =
     Inr \<lparr>monitor = init\<lparr>recent_damages := [dmg_55]\<rparr>, f_pos = 1200, file_size = 1200,
          line_counter = 7\<rparr> \<and>
   recent_damages (init\<lparr>recent_damages := [dmg_55]\<rparr>) = [dmg_55] \<and>
   recent_damages init = [] \<and>
   fst (follow_line True 1300 62 (Some tk_line_55)
          \<lparr>monitor = init\<lparr>recent_damages := [dmg_55]\<rparr>, f_pos = 1200, file_size = 1200,
            line_counter = 7\<rparr>) =
     Inr (Some \<lparr>time_utc = \<lparr>year = 2024, month = 1, day = 1, hour = 0, minute = 0, second = 0,
                              microsecond = 0, tzinfo = Some UTC\<rparr>,
                  victim = ''V'', killer = ''K'', weapon = ''AK47''\<rparr>)"
proof -
  let ?st = "init\<lparr>recent_damages := [dmg_55]\<rparr>"
  have c: "check_truncated (Some 1200) (Some 1200) follower_50000 =
      Inr \<lparr>monitor = ?st, f_pos = 1200, file_size = 1200, line_counter = 7\<rparr>"
    by (simp add: check_truncated_def follower_50000_def)
  have na: "match_admincam True tk_line_55 ?st = (Inr False, ?st)"
    by (simp add: match_admincam_def tk_line_55_only_teamkill)
  have nd: "match_damage tk_line_55 ?st = (False, ?st)"
    by (simp add: match_damage_def tk_line_55_only_teamkill)
  have u: "re_group [(''log_id'', ''55'')] ''log_id'' \<notin> seen_tks ?st"
    by (simp add: init_def)
  have f: "find (\<lambda>d. re_group d ''log_id'' = re_group [(''log_id'', ''55'')] ''log_id'') (recent_damages ?st)
     = Some dmg_55"
    by (simp add: group_samples)
  have t: "strptime (re_group dmg_55 ''time'') = Inr \<lparr>year = 2024, month = 1, day = 1, hour = 0,
      minute = 0, second = 0, microsecond = 0, tzinfo = None\<rparr>"
    by (simp add: group_samples strptime_sample_0)
  have p: "fst (parse_line True tk_line_55 ?st) =
     Inr (Some \<lparr>time_utc = \<lparr>year = 2024, month = 1, day = 1, hour = 0, minute = 0, second = 0,
                              microsecond = 0, tzinfo = Some UTC\<rparr>,
                  victim = ''V'', killer = ''K'', weapon = ''AK47''\<rparr>)"
    by (simp add: parse_line_def na nd match_teamkill_hit[OF search_tk_line_55 u f t]
        group_samples localize_def)
  have q: "fst (follow_line True 1300 62 (Some tk_line_55)
      \<lparr>monitor = ?st, f_pos = 1200, file_size = 1200, line_counter = 7\<rparr>) =
     Inr (Some \<lparr>time_utc = \<lparr>year = 2024, month = 1, day = 1, hour = 0, minute = 0, second = 0,
                              microsecond = 0, tzinfo = Some UTC\<rparr>,
                  victim = ''V'', killer = ''K'', weapon = ''AK47''\<rparr>)"
    unfolding follow_line_fst using p by simp
  show ?thesis
    unfolding c q by (simp add: init_def follower_50000_def)
qed

end
